theory Spec2Isabelle
  imports Complex_Main
begin

section \<open>The serial channel\<close>

text \<open>
  The program (\<^verbatim>\<open>realtime_imu.py\<close>) talks to a pyserial port object through four
  members: \<^verbatim>\<open>in_waiting\<close>, \<^verbatim>\<open>readline()\<close>, \<^verbatim>\<open>reset_input_buffer()\<close> and the
  \<^verbatim>\<open>timeout\<close> attribute. The port is modelled as a record:
  \<^item> \<open>rx\<close>: the bytes waiting in the receive buffer, oldest first;
  \<^item> \<open>inflight\<close>: bytes the device has already sent and that reach the receive buffer
    right after a \<^verbatim>\<open>reset_input_buffer()\<close> (the situation the source's "Method 2:
    Read and discard any remaining data" is written for); no other byte arrives while
    one method of the program runs;
  \<^item> \<open>timeout\<close>: the read timeout in seconds;
  \<^item> \<open>faults\<close>: \<open>None\<close> for a healthy link; \<open>Some n\<close> when the next \<open>n\<close> port
    operations succeed and every later one raises \<^verbatim>\<open>SerialException\<close>.
  Seconds and angles are Python floats; they are modelled as reals.
\<close>

datatype error = SerialException | UnicodeDecodeError | ValueError | AttributeError

record serial =
  rx :: "char list"
  inflight :: "char list"
  timeout :: real
  faults :: "nat option"

text \<open>
  A port operation is a function from the port to its outcome (a value, or the exception
  raised) and the port afterwards.
\<close>

type_synonym 'a io = "serial \<Rightarrow> (error + 'a) \<times> serial"

definition link_up :: "serial \<Rightarrow> serial option" where
  "link_up p =
     (case faults p of
        None \<Rightarrow> Some p
      | Some 0 \<Rightarrow> None
      | Some (Suc n) \<Rightarrow> Some (p\<lparr>faults := Some n\<rparr>))"

definition in_waiting :: "nat io" where
  "in_waiting p =
     (case link_up p of
        None \<Rightarrow> (Inl SerialException, p)
      | Some p' \<Rightarrow> (Inr (length (rx p')), p'))"

text \<open>
  \<^verbatim>\<open>readline()\<close> returns the bytes up to and including the first line feed; when the
  buffer holds no line feed it returns, after the timeout, everything that is there.
\<close>

fun take_line :: "char list \<Rightarrow> char list \<times> char list" where
  "take_line [] = ([], [])"
| "take_line (c # cs) =
     (if c = CHR 0x0A then ([c], cs)
      else (case take_line cs of (l, r) \<Rightarrow> (c # l, r)))"

definition readline :: "char list io" where
  "readline p =
     (case link_up p of
        None \<Rightarrow> (Inl SerialException, p)
      | Some p' \<Rightarrow> (case take_line (rx p') of (l, r) \<Rightarrow> (Inr l, p'\<lparr>rx := r\<rparr>)))"

definition reset_input_buffer :: "unit io" where
  "reset_input_buffer p =
     (case link_up p of
        None \<Rightarrow> (Inl SerialException, p)
      | Some p' \<Rightarrow> (Inr (), p'\<lparr>rx := inflight p', inflight := []\<rparr>))"

section \<open>The object state\<close>

text \<open>The fields of \<^verbatim>\<open>RealTimeIMU\<close> that the data path reads or writes.\<close>

record imu =
  rotX :: real
  rotY :: real
  rotZ :: real
  demo_mode :: bool
  demo_time :: real
  serial_port :: "serial option"
  serial_connected :: bool
  buffer_clear_interval :: real
  last_buffer_clear :: real
  max_buffer_size :: nat
  data_count :: nat
  last_data_time :: real

section \<open>clear_serial_buffer\<close>

text \<open>
  The drain loop of \<^verbatim>\<open>clear_serial_buffer\<close>:
  \<^verbatim>\<open>
  while self.serial_port.in_waiting > 0:
      self.serial_port.readline()
      discarded_count += 1
      if discarded_count > 50:  # Safety limit
          break
  \<close>
  The function returns \<open>discarded_count\<close> at the loop's exit, or the exception raised.
\<close>

function discard_loop :: "nat \<Rightarrow> nat io" where
  "discard_loop discarded_count p =
     (case in_waiting p of
        (Inl e, p1) \<Rightarrow> (Inl e, p1)
      | (Inr n, p1) \<Rightarrow>
          if n > 0 then
            (case readline p1 of
               (Inl e, p2) \<Rightarrow> (Inl e, p2)
             | (Inr line, p2) \<Rightarrow>
                 if discarded_count + 1 > 50 then (Inr (discarded_count + 1), p2)
                 else discard_loop (discarded_count + 1) p2)
          else (Inr discarded_count, p1))"
  by pat_completeness auto
termination
  by (relation "measure (\<lambda>(discarded_count, p). 51 - discarded_count)") auto

declare discard_loop.simps [simp del]

text \<open>
  What \<^verbatim>\<open>clear_serial_buffer\<close> prints: the number of discarded packets (nothing when
  it is 0), or the "Buffer clear error" of its handler; \<open>No_port\<close> stands for the early
  return.
\<close>

datatype flushed = No_port | Discarded nat | Buffer_clear_error error

definition clear_serial_buffer :: "imu \<Rightarrow> flushed \<times> imu" where
  "clear_serial_buffer s =
     (case serial_port s of
        None \<Rightarrow> (No_port, s)
      | Some p \<Rightarrow>
          (case reset_input_buffer p of
             (Inl e, p1) \<Rightarrow> (Buffer_clear_error e, s\<lparr>serial_port := Some p1\<rparr>)
           | (Inr _, p1) \<Rightarrow>
               (let old_timeout = timeout p1;
                    p2 = p1\<lparr>timeout := 0.001\<rparr>
                in case discard_loop 0 p2 of
                     (Inl e, p3) \<Rightarrow> (Buffer_clear_error e, s\<lparr>serial_port := Some p3\<rparr>)
                   | (Inr discarded_count, p3) \<Rightarrow>
                       (Discarded discarded_count,
                        s\<lparr>serial_port := Some (p3\<lparr>timeout := old_timeout\<rparr>)\<rparr>))))"

section \<open>Text of a packet\<close>

text \<open>
  The sensor writes ASCII lines. \<^verbatim>\<open>bytes.decode('utf-8')\<close> maps a byte below 0x80 to
  the character with that code; the model raises \<^verbatim>\<open>UnicodeDecodeError\<close> for a line
  that holds any other byte (multi-byte UTF-8 text is outside the model).
\<close>

definition decode_utf8 :: "char list \<Rightarrow> error + string" where
  "decode_utf8 bs =
     (if list_all (\<lambda>b. (of_char b :: nat) < 128) bs then Inr bs else Inl UnicodeDecodeError)"

text \<open>\<^verbatim>\<open>str.strip()\<close>: the ASCII characters for which \<^verbatim>\<open>str.isspace\<close> holds.\<close>

definition isspace :: "char \<Rightarrow> bool" where
  "isspace c =
     (let n = (of_char c :: nat)
      in (9 \<le> n \<and> n \<le> 13) \<or> (28 \<le> n \<and> n \<le> 32))"

definition strip :: "string \<Rightarrow> string" where
  "strip s = rev (dropWhile isspace (rev (dropWhile isspace s)))"

text \<open>\<^verbatim>\<open>str.split(',')\<close>: the fields between the separators, at least one field.\<close>

fun split_at :: "char \<Rightarrow> string \<Rightarrow> string list" where
  "split_at sep [] = [[]]"
| "split_at sep (c # cs) =
     (if c = sep then [] # split_at sep cs
      else (case split_at sep cs of
              [] \<Rightarrow> [[c]]
            | f # fs \<Rightarrow> (c # f) # fs))"

text \<open>
  \<^verbatim>\<open>float(str)\<close> on a decimal literal: optional surrounding whitespace, an optional
  sign, digits with an optional fraction (at least one digit in all), an optional
  exponent. Around the literal \<^verbatim>\<open>float\<close> accepts the space and the characters 0x09 to
  0x0D only: unlike \<^verbatim>\<open>strip()\<close> it raises for 0x1C to 0x1F. The value is the
  literal's decimal value (Python rounds it to the nearest double). The literals
  \<^verbatim>\<open>inf\<close> and \<^verbatim>\<open>nan\<close>, which a real number cannot hold, and digit grouping with
  underscores are outside the model, which answers \<^verbatim>\<open>ValueError\<close> for them.
\<close>

definition float_space :: "char \<Rightarrow> bool" where
  "float_space c = (let n = (of_char c :: nat) in (9 \<le> n \<and> n \<le> 13) \<or> n = 32)"

definition float_strip :: "string \<Rightarrow> string" where
  "float_strip s = rev (dropWhile float_space (rev (dropWhile float_space s)))"

definition isdigit :: "char \<Rightarrow> bool" where
  "isdigit c = (let n = (of_char c :: nat) in 48 \<le> n \<and> n \<le> 57)"

definition digits_value :: "string \<Rightarrow> nat" where
  "digits_value ds = foldl (\<lambda>a c. 10 * a + ((of_char c :: nat) - 48)) 0 ds"

text \<open>The sign in front of a literal: the factor and the rest of the text.\<close>

fun take_sign :: "string \<Rightarrow> int \<times> string" where
  "take_sign [] = (1, [])"
| "take_sign (c # cs) =
     (if c = CHR ''-'' then (- 1, cs)
      else if c = CHR ''+'' then (1, cs)
      else (1, c # cs))"

text \<open>The exponent part: nothing, or \<^verbatim>\<open>e\<close>/\<^verbatim>\<open>E\<close>, an optional sign and digits.\<close>

definition exponent :: "string \<Rightarrow> int option" where
  "exponent t =
     (case t of
        [] \<Rightarrow> Some 0
      | c # cs \<Rightarrow>
          if c = CHR ''e'' \<or> c = CHR ''E'' then
            (case take_sign cs of
               (sg, ds) \<Rightarrow>
                 if ds \<noteq> [] \<and> list_all isdigit ds then Some (sg * int (digits_value ds))
                 else None)
          else None)"

definition scale10 :: "real \<Rightarrow> int \<Rightarrow> real" where
  "scale10 x e = (if 0 \<le> e then x * 10 ^ nat e else x / 10 ^ nat (- e))"

definition float_of_str :: "string \<Rightarrow> error + real" where
  "float_of_str s =
     (case take_sign (float_strip s) of
        (sg, t) \<Rightarrow>
          (let ip = takeWhile isdigit t;
               t1 = dropWhile isdigit t;
               fp = (case t1 of
                       [] \<Rightarrow> []
                     | c # cs \<Rightarrow> if c = CHR ''.'' then takeWhile isdigit cs else []);
               t2 = (case t1 of
                       [] \<Rightarrow> []
                     | c # cs \<Rightarrow> if c = CHR ''.'' then dropWhile isdigit cs else t1)
           in if ip = [] \<and> fp = [] then Inl ValueError
              else (case exponent t2 of
                      None \<Rightarrow> Inl ValueError
                    | Some e \<Rightarrow>
                        Inr (of_int sg *
                             scale10 (real (digits_value (ip @ fp))) (e - int (length fp))))))"

section \<open>read_latest_serial_data\<close>

subsection \<open>What the port operations do to the receive buffer\<close>

lemma link_up_rx: "link_up p = Some p' \<Longrightarrow> rx p' = rx p"
  by (auto simp: link_up_def split: option.splits nat.splits)

lemma in_waiting_Inr:
  "in_waiting p = (Inr n, p') \<Longrightarrow> rx p' = rx p \<and> n = length (rx p)"
  by (auto simp: in_waiting_def link_up_rx split: option.splits)

lemma take_line_shorter: "length (snd (take_line (c # cs))) \<le> length cs"
proof (induction cs arbitrary: c)
  case Nil
  show ?case by simp
next
  case (Cons d ds)
  have "length (snd (take_line (d # ds))) \<le> length ds" by (rule Cons.IH)
  then show ?case by (simp add: case_prod_unfold)
qed

lemma readline_shorter:
  assumes "readline p = (Inr l, p')" and "rx p \<noteq> []"
  shows "length (rx p') < length (rx p)"
proof -
  from assms(1) obtain q where q: "link_up p = Some q" and p': "p' = q\<lparr>rx := snd (take_line (rx q))\<rparr>"
    by (auto simp: readline_def split: option.splits prod.splits)
  from q have "rx q = rx p" by (rule link_up_rx)
  moreover from assms(2) obtain c cs where "rx p = c # cs" by (cases "rx p") auto
  ultimately show ?thesis using p' take_line_shorter [of c cs] by simp
qed

lemma step_shorter:
  assumes "(Inr n, p1) = in_waiting p" and "0 < n" and "(Inr bytes, p2) = readline p1"
  shows "length (rx p2) < length (rx p)"
proof -
  from assms(1) have a: "rx p1 = rx p" "n = length (rx p)"
    using in_waiting_Inr [of p n p1] by simp_all
  with assms(2) have "rx p1 \<noteq> []" by auto
  with assms(3) have "length (rx p2) < length (rx p1)"
    using readline_shorter [of p1 bytes p2] by simp
  with a show ?thesis by simp
qed

subsection \<open>The drain loop\<close>

text \<open>
  Step 2 of \<^verbatim>\<open>read_latest_serial_data\<close>:
  \<^verbatim>\<open>
  while self.serial_port.in_waiting > 0:
      try:
          line = self.serial_port.readline().decode('utf-8').strip()
          if line:
              if latest_data is not None:
                  packets_discarded += 1
              latest_data = line
      except:
          break
  \<close>
  The loop's variables are the function's arguments; it returns their values at the
  loop's exit. An exception of \<^verbatim>\<open>in_waiting\<close> is raised outside the inner
  \<^verbatim>\<open>try\<close> and leaves the loop as an exception; one of \<^verbatim>\<open>readline\<close> or
  \<^verbatim>\<open>decode\<close> is caught and ends the loop.
\<close>

function latest_loop :: "string option \<Rightarrow> nat \<Rightarrow> (string option \<times> nat) io" where
  "latest_loop latest_data packets_discarded p =
     (case in_waiting p of
        (Inl e, p1) \<Rightarrow> (Inl e, p1)
      | (Inr n, p1) \<Rightarrow>
          if n > 0 then
            (case readline p1 of
               (Inl e, p2) \<Rightarrow> (Inr (latest_data, packets_discarded), p2)
             | (Inr bytes, p2) \<Rightarrow>
                 (case decode_utf8 bytes of
                    Inl e \<Rightarrow> (Inr (latest_data, packets_discarded), p2)
                  | Inr text \<Rightarrow>
                      (let line = strip text
                       in if line \<noteq> [] then
                            latest_loop (Some line)
                              (if latest_data \<noteq> None then packets_discarded + 1
                               else packets_discarded) p2
                          else latest_loop latest_data packets_discarded p2)))
          else (Inr (latest_data, packets_discarded), p1))"
  by pat_completeness auto
termination
  by (relation "measure (\<lambda>(latest_data, packets_discarded, p). length (rx p))")
     (auto intro: step_shorter)

declare latest_loop.simps [simp del]

subsection \<open>Step 1: the periodic buffer check\<close>

text \<open>
  \<^verbatim>\<open>
  if current_time - self.last_buffer_clear > self.buffer_clear_interval:
      if self.serial_port.in_waiting > self.max_buffer_size:
          print(f"... Buffer size: {self.serial_port.in_waiting} - clearing old data")
          self.clear_serial_buffer()
      self.last_buffer_clear = current_time
  \<close>
  \<open>current_time\<close> is the reading of \<^verbatim>\<open>time.time()\<close>. The message reads
  \<^verbatim>\<open>in_waiting\<close> a second time. An exception leaves the step before the timestamp is
  written.
\<close>

definition periodic_clear :: "real \<Rightarrow> imu \<Rightarrow> (error + unit) \<times> imu" where
  "periodic_clear current_time s =
     (if current_time - last_buffer_clear s > buffer_clear_interval s then
        (case serial_port s of
           None \<Rightarrow> (Inl AttributeError, s)
         | Some p \<Rightarrow>
             (case in_waiting p of
                (Inl e, p1) \<Rightarrow> (Inl e, s\<lparr>serial_port := Some p1\<rparr>)
              | (Inr n, p1) \<Rightarrow>
                  if n > max_buffer_size s then
                    (case in_waiting p1 of
                       (Inl e, p2) \<Rightarrow> (Inl e, s\<lparr>serial_port := Some p2\<rparr>)
                     | (Inr m, p2) \<Rightarrow>
                         (case clear_serial_buffer (s\<lparr>serial_port := Some p2\<rparr>) of
                            (printed, s1) \<Rightarrow> (Inr (), s1\<lparr>last_buffer_clear := current_time\<rparr>)))
                  else (Inr (), s\<lparr>serial_port := Some p1, last_buffer_clear := current_time\<rparr>)))
      else (Inr (), s))"

subsection \<open>Step 3: the latest packet is parsed and assigned\<close>

text \<open>
  \<^verbatim>\<open>
  if latest_data:
      values = latest_data.split(',')
      if len(values) >= 3:
          try:
              self.rotY = float(values[0])
              self.rotX = float(values[1])
              self.rotZ = float(values[2])
              self.data_count += 1
              self.last_data_time = current_time
              return True
          except ValueError:
              print(f"Parse error: {latest_data}")
  return False
  \<close>
  The three assignments run one after the other: a \<^verbatim>\<open>ValueError\<close> of a later
  conversion leaves the earlier assignments in place.
\<close>

definition process_latest :: "real \<Rightarrow> string option \<Rightarrow> imu \<Rightarrow> bool \<times> imu" where
  "process_latest current_time latest_data s =
     (case latest_data of
        None \<Rightarrow> (False, s)
      | Some line \<Rightarrow>
          if line \<noteq> [] then
            (let values = split_at (CHR '','') line
             in if length values \<ge> 3 then
                  (case float_of_str (values ! 0) of
                     Inl e \<Rightarrow> (False, s)
                   | Inr y \<Rightarrow>
                       (let s1 = s\<lparr>rotY := y\<rparr>
                        in case float_of_str (values ! 1) of
                             Inl e \<Rightarrow> (False, s1)
                           | Inr x \<Rightarrow>
                               (let s2 = s1\<lparr>rotX := x\<rparr>
                                in case float_of_str (values ! 2) of
                                     Inl e \<Rightarrow> (False, s2)
                                   | Inr z \<Rightarrow>
                                       (True, s2\<lparr>rotZ := z,
                                                 data_count := data_count s2 + 1,
                                                 last_data_time := current_time\<rparr>))))
                else (False, s))
          else (False, s))"

subsection \<open>The method\<close>

text \<open>
  The method returns \<^verbatim>\<open>False\<close> at once without a connected port. Any exception that
  reaches the outer handler makes it return \<^verbatim>\<open>False\<close>.
\<close>

definition read_latest_serial_data :: "real \<Rightarrow> imu \<Rightarrow> bool \<times> imu" where
  "read_latest_serial_data current_time s =
     (if \<not> serial_connected s \<or> serial_port s = None then (False, s)
      else
        (case periodic_clear current_time s of
           (Inl e, s1) \<Rightarrow> (False, s1)
         | (Inr u, s1) \<Rightarrow>
             (case serial_port s1 of
                None \<Rightarrow> (False, s1)
              | Some p \<Rightarrow>
                  (case latest_loop None 0 p of
                     (Inl e, p1) \<Rightarrow> (False, s1\<lparr>serial_port := Some p1\<rparr>)
                   | (Inr (latest_data, packets_discarded), p1) \<Rightarrow>
                       process_latest current_time latest_data (s1\<lparr>serial_port := Some p1\<rparr>)))))"

section \<open>Demo mode, display and keyboard\<close>

definition update_demo :: "imu \<Rightarrow> imu" where
  "update_demo s =
     (let t = demo_time s + 0.02
      in s\<lparr>demo_time := t,
           rotX := 45 * sin t,
           rotY := 30 * cos (t * 0.7),
           rotZ := 60 * sin (t * 0.3)\<rparr>)"

text \<open>
  The title of \<^verbatim>\<open>draw_realtime_cube\<close>:
  \<^verbatim>\<open>
  if self.serial_connected and not self.demo_mode:
      data_age = time.time() - self.last_data_time if self.last_data_time > 0 else 0
      freshness = "LIVE" if data_age < 0.5 else "STALE" if data_age < 2 else "OLD"
  \<close>
  \<open>now\<close> is the reading of \<^verbatim>\<open>time.time()\<close>.
\<close>

datatype freshness = LIVE | STALE | OLD

definition data_age :: "real \<Rightarrow> imu \<Rightarrow> real" where
  "data_age now s = (if last_data_time s > 0 then now - last_data_time s else 0)"

definition freshness :: "real \<Rightarrow> imu \<Rightarrow> freshness" where
  "freshness now s =
     (if data_age now s < 0.5 then LIVE
      else if data_age now s < 2 then STALE
      else OLD)"

text \<open>
  Both drawing methods read the buffer size for the status line:
  \<^verbatim>\<open>buffer_size = self.serial_port.in_waiting if self.serial_port else 0\<close>. Nothing
  catches an exception of this read.
\<close>

definition buffer_size :: "imu \<Rightarrow> (error + nat) \<times> imu" where
  "buffer_size s =
     (case serial_port s of
        None \<Rightarrow> (Inr 0, s)
      | Some p \<Rightarrow> (case in_waiting p of (r, p1) \<Rightarrow> (r, s\<lparr>serial_port := Some p1\<rparr>)))"

text \<open>
  \<^verbatim>\<open>draw_realtime_cube\<close> shows the freshness in live mode only (\<open>None\<close>: the demo
  title) and the buffer size; \<^verbatim>\<open>draw_ui_panels\<close> shows the buffer size again. The
  graphics are left out.
\<close>

definition draw_realtime_cube :: "real \<Rightarrow> imu \<Rightarrow> (error + freshness option \<times> nat) \<times> imu" where
  "draw_realtime_cube now s =
     (let title = (if serial_connected s \<and> \<not> demo_mode s then Some (freshness now s) else None)
      in case buffer_size s of
           (Inl e, s1) \<Rightarrow> (Inl e, s1)
         | (Inr n, s1) \<Rightarrow> (Inr (title, n), s1))"

definition draw_ui_panels :: "imu \<Rightarrow> (error + nat) \<times> imu" where
  "draw_ui_panels s = buffer_size s"

text \<open>
  \<^verbatim>\<open>update_plot\<close>, one tick of the animation: the data step, then the two drawing
  methods. \<open>current_time\<close> and \<open>now\<close> are the clock readings of the data step and of
  the title.
\<close>

definition update_plot :: "real \<Rightarrow> real \<Rightarrow> imu \<Rightarrow> (error + unit) \<times> imu" where
  "update_plot current_time now s =
     (let s1 = (if serial_connected s \<and> \<not> demo_mode s
                then snd (read_latest_serial_data current_time s)
                else update_demo s)
      in case draw_realtime_cube now s1 of
           (Inl e, s2) \<Rightarrow> (Inl e, s2)
         | (Inr shown, s2) \<Rightarrow>
             (case draw_ui_panels s2 of
                (Inl e, s3) \<Rightarrow> (Inl e, s3)
              | (Inr n, s3) \<Rightarrow> (Inr (), s3)))"

text \<open>\<^verbatim>\<open>str.lower()\<close> on ASCII text.\<close>

definition lower :: "string \<Rightarrow> string" where
  "lower k =
     map (\<lambda>c. let n = (of_char c :: nat)
               in if 65 \<le> n \<and> n \<le> 90 then char_of (n + 32) else c) k"

text \<open>
  \<^verbatim>\<open>on_key_press\<close>; the argument is \<^verbatim>\<open>event.key\<close> (\<open>None\<close> when the event carries
  no key). Closing the figure on \<^verbatim>\<open>escape\<close> changes nothing of the state.
\<close>

definition on_key_press :: "string option \<Rightarrow> imu \<Rightarrow> imu" where
  "on_key_press event_key s =
     (case event_key of
        None \<Rightarrow> s
      | Some k \<Rightarrow>
          if k = [] then s
          else
            (let key = lower k
             in if key = ''r'' then s\<lparr>rotX := 0, rotY := 0, rotZ := 0\<rparr>
                else if key = ''d'' then s\<lparr>demo_mode := \<not> demo_mode s\<rparr>
                else if key = ''b'' then
                  (if serial_port s \<noteq> None then snd (clear_serial_buffer s) else s)
                else s))"

section \<open>Construction\<close>

text \<open>The field values \<^verbatim>\<open>__init__\<close> assigns before it calls \<^verbatim>\<open>init_serial\<close>.\<close>

definition fresh_imu :: imu where
  "fresh_imu =
     \<lparr>rotX = 0, rotY = 0, rotZ = 0,
      demo_mode = False, demo_time = 0,
      serial_port = None, serial_connected = False,
      buffer_clear_interval = 0.05, last_buffer_clear = 0, max_buffer_size = 100,
      data_count = 0, last_data_time = 0\<rparr>"

text \<open>
  \<^verbatim>\<open>init_serial\<close>. \<open>SERIAL_AVAILABLE\<close> is the module's flag (pyserial could be
  imported); \<open>opened\<close> is the outcome of \<^verbatim>\<open>serial.Serial(port='COM6', ...,
  timeout=0.01, ...)\<close>: the exception it raises, or the port as it stands after the two
  seconds of sleep. \<^verbatim>\<open>clear_serial_buffer\<close> catches its own exceptions, so the
  handler of \<^verbatim>\<open>init_serial\<close> only sees a failed open.
\<close>

definition init_serial :: "bool \<Rightarrow> error + serial \<Rightarrow> imu \<Rightarrow> imu" where
  "init_serial SERIAL_AVAILABLE opened s =
     (if \<not> SERIAL_AVAILABLE then s\<lparr>demo_mode := True\<rparr>
      else
        (case opened of
           Inl e \<Rightarrow> s\<lparr>serial_connected := False, demo_mode := True\<rparr>
         | Inr p \<Rightarrow>
             (case clear_serial_buffer (s\<lparr>serial_port := Some (p\<lparr>timeout := 0.01\<rparr>)\<rparr>) of
                (printed, s1) \<Rightarrow> s1\<lparr>serial_connected := True\<rparr>)))"

definition RealTimeIMU :: "bool \<Rightarrow> error + serial \<Rightarrow> imu" where
  "RealTimeIMU SERIAL_AVAILABLE opened = init_serial SERIAL_AVAILABLE opened fresh_imu"

section \<open>Concrete ports and objects\<close>

text \<open>
  A healthy port as \<^verbatim>\<open>init_serial\<close> configures it (timeout 0.01 s), holding \<open>bs\<close> in
  its receive buffer with \<open>coming\<close> in flight, and the object connected to a port.
\<close>

definition port_holding :: "char list \<Rightarrow> char list \<Rightarrow> serial" where
  "port_holding bs coming = \<lparr>rx = bs, inflight = coming, timeout = 0.01, faults = None\<rparr>"

definition connected_to :: "serial \<Rightarrow> imu" where
  "connected_to p = fresh_imu\<lparr>serial_port := Some p, serial_connected := True\<rparr>"

text \<open>The bytes of a sequence of lines, each ended by a line feed.\<close>

definition wire :: "string list \<Rightarrow> char list" where
  "wire ls = concat (map (\<lambda>l. l @ [CHR 0x0A]) ls)"

section \<open>The flush restores the read timeout\<close>

lemma link_up_timeout: "link_up p = Some p' \<Longrightarrow> timeout p' = timeout p"
  by (auto simp: link_up_def split: option.splits nat.splits)

lemma in_waiting_timeout: "in_waiting p = (r, p') \<Longrightarrow> timeout p' = timeout p"
  by (auto simp: in_waiting_def link_up_timeout split: option.splits)

lemma readline_timeout: "readline p = (r, p') \<Longrightarrow> timeout p' = timeout p"
  by (auto simp: readline_def link_up_timeout split: option.splits prod.splits)

lemma reset_input_buffer_timeout: "reset_input_buffer p = (r, p') \<Longrightarrow> timeout p' = timeout p"
  by (auto simp: reset_input_buffer_def link_up_timeout split: option.splits)

lemma discard_loop_timeout: "discard_loop c p = (r, p') \<Longrightarrow> timeout p' = timeout p"
proof (induction c p rule: discard_loop.induct)
  case (1 c p)
  show ?case
  proof (cases "in_waiting p")
    case (Pair x p1)
    note iw = this
    then have t1: "timeout p1 = timeout p" by (rule in_waiting_timeout)
    show ?thesis
    proof (cases x)
      case (Inl e)
      with iw "1.prems" t1 show ?thesis by (simp add: discard_loop.simps [of c p])
    next
      case (Inr n)
      note xn = this
      show ?thesis
      proof (cases "readline p1")
        case (Pair y p2)
        note rl = this
        then have t2: "timeout p2 = timeout p1" by (rule readline_timeout)
        show ?thesis
        proof (cases y)
          case (Inl e)
          with iw xn rl "1.prems" t1 t2 show ?thesis
            by (simp add: discard_loop.simps [of c p] split: if_splits)
        next
          case (Inr line)
          show ?thesis
          proof (cases "0 < n \<and> \<not> 50 < c + 1")
            case True
            with iw xn rl Inr "1.prems" have "discard_loop (c + 1) p2 = (r, p')"
              by (simp add: discard_loop.simps [of c p])
            with "1.IH" [OF iw [symmetric] xn _ rl [symmetric] Inr] True
            have "timeout p' = timeout p2" by simp
            with t1 t2 show ?thesis by simp
          next
            case False
            with iw xn rl Inr "1.prems" t1 t2 show ?thesis
              by (auto simp add: discard_loop.simps [of c p] split: if_splits)
          qed
        qed
      qed
    qed
  qed
qed

text \<open>
  Claim C10: a call of \<^verbatim>\<open>clear_serial_buffer\<close> that does not end in its exception
  handler leaves the port's read timeout at the value it had before the call; the
  0.001 s of the drain loop does not stay in effect. (Without a port the call changes
  nothing.)
\<close>

theorem clear_serial_buffer_restores_timeout:
  assumes "clear_serial_buffer s = (printed, s')"
    and "\<forall>e. printed \<noteq> Buffer_clear_error e"
  shows "map_option timeout (serial_port s') = map_option timeout (serial_port s)"
proof (cases "serial_port s")
  case None
  with assms(1) show ?thesis by (simp add: clear_serial_buffer_def)
next
  case (Some p)
  obtain x p1 where r: "reset_input_buffer p = (x, p1)" by (cases "reset_input_buffer p")
  then have t1: "timeout p1 = timeout p" by (rule reset_input_buffer_timeout)
  show ?thesis
  proof (cases x)
    case (Inl e)
    with Some r assms show ?thesis by (auto simp: clear_serial_buffer_def)
  next
    case (Inr u)
    obtain y p3 where d: "discard_loop 0 (p1\<lparr>timeout := 0.001\<rparr>) = (y, p3)"
      by (cases "discard_loop 0 (p1\<lparr>timeout := 0.001\<rparr>)")
    show ?thesis
    proof (cases y)
      case (Inl e)
      with Some r \<open>x = Inr u\<close> d assms show ?thesis
        by (auto simp: clear_serial_buffer_def Let_def)
    next
      case (Inr n)
      with Some r \<open>x = Inr u\<close> d assms(1) t1 show ?thesis
        by (auto simp: clear_serial_buffer_def Let_def)
    qed
  qed
qed

text \<open>
  A flush that finds two lines arriving after the reset: both are discarded and the
  timeout is 0.01 s again.
\<close>

theorem clear_serial_buffer_restores_timeout_witness:
  "clear_serial_buffer (connected_to (port_holding ''old'' (wire [''1,2,3'', ''4,5,6''])))
     = (Discarded 2, connected_to (port_holding [] [])) \<and>
   map_option timeout (serial_port (connected_to (port_holding [] []))) = Some 0.01"
proof -
  have run: "clear_serial_buffer (connected_to (port_holding ''old'' (wire [''1,2,3'', ''4,5,6''])))
     = (Discarded 2, connected_to (port_holding [] []))"
    by (simp add: clear_serial_buffer_def connected_to_def port_holding_def fresh_imu_def
        wire_def reset_input_buffer_def link_up_def discard_loop.simps in_waiting_def
        readline_def)
  have normal: "\<forall>e. Discarded 2 \<noteq> Buffer_clear_error e" by simp
  from clear_serial_buffer_restores_timeout [OF run normal] run show ?thesis
    by (simp add: connected_to_def port_holding_def)
qed

text \<open>
  The handler does not restore it: when \<^verbatim>\<open>readline\<close> raises inside the drain loop,
  the port keeps the 0.001 s.
\<close>

lemma clear_serial_buffer_error_keeps_short_timeout:
  "clear_serial_buffer (connected_to ((port_holding [] ''1,2,3'')\<lparr>faults := Some 2\<rparr>))
     = (Buffer_clear_error SerialException,
        connected_to \<lparr>rx = ''1,2,3'', inflight = [], timeout = 0.001, faults = Some 0\<rparr>)"
  by (simp add: clear_serial_buffer_def connected_to_def port_holding_def fresh_imu_def
      reset_input_buffer_def link_up_def discard_loop.simps in_waiting_def readline_def)

section \<open>Freshness of the displayed orientation\<close>

text \<open>
  Claim C4 says that the classification is LIVE below 0.5 s of age, STALE from 0.5 s to
  below 2 s, OLD from 2 s on, and OLD when no sample has ever been accepted. The last
  part fails: before the first accepted sample \<open>last_data_time\<close> is still 0, the guard
  \<^verbatim>\<open>if self.last_data_time > 0 else 0\<close> takes the age as 0, and the title shows LIVE.
\<close>

theorem freshness_never_accepted_counterexample:
  "last_data_time fresh_imu = 0 \<and> data_count fresh_imu = 0 \<and>
   freshness 100 fresh_imu = LIVE \<and> freshness 100 fresh_imu \<noteq> OLD"
  by (simp add: freshness_def data_age_def fresh_imu_def)

text \<open>
  Claim C4, as the code has it: once a sample has been accepted (\<open>last_data_time\<close> is
  positive) the classification is LIVE when \<open>now - last_data_time < 0.5\<close>, STALE when
  \<open>0.5 \<le> now - last_data_time < 2\<close> and OLD otherwise; while no sample has been accepted
  (\<open>last_data_time\<close> is not positive) it is LIVE.
\<close>

theorem freshness_classification:
  "(0 < last_data_time s \<and> now - last_data_time s < 0.5 \<longrightarrow> freshness now s = LIVE) \<and>
   (0 < last_data_time s \<and> 0.5 \<le> now - last_data_time s \<and> now - last_data_time s < 2
      \<longrightarrow> freshness now s = STALE) \<and>
   (0 < last_data_time s \<and> 2 \<le> now - last_data_time s \<longrightarrow> freshness now s = OLD) \<and>
   (last_data_time s \<le> 0 \<longrightarrow> freshness now s = LIVE)"
  by (simp add: freshness_def data_age_def)

text \<open>The boundaries, 100 s after start-up: ages 0.49 s, 0.5 s, 1.99 s, 2 s and no sample.\<close>

theorem freshness_classification_witness:
  "freshness 100 (fresh_imu\<lparr>last_data_time := 99.51\<rparr>) = LIVE \<and>
   freshness 100 (fresh_imu\<lparr>last_data_time := 99.5\<rparr>) = STALE \<and>
   freshness 100 (fresh_imu\<lparr>last_data_time := 98.01\<rparr>) = STALE \<and>
   freshness 100 (fresh_imu\<lparr>last_data_time := 98\<rparr>) = OLD \<and>
   freshness 100 fresh_imu = LIVE"
  using freshness_classification [of "fresh_imu\<lparr>last_data_time := 99.51\<rparr>" 100]
        freshness_classification [of "fresh_imu\<lparr>last_data_time := 99.5\<rparr>" 100]
        freshness_classification [of "fresh_imu\<lparr>last_data_time := 98.01\<rparr>" 100]
        freshness_classification [of "fresh_imu\<lparr>last_data_time := 98\<rparr>" 100]
        freshness_classification [of fresh_imu 100]
  by (simp add: fresh_imu_def)

section \<open>A failed open\<close>

text \<open>
  \<^verbatim>\<open>start\<close> hands \<^verbatim>\<open>update_plot\<close> to the animation, which calls it once per tick; an
  exception of a tick ends the run. Each tick has its two clock readings.
\<close>

fun run_ticks :: "(real \<times> real) list \<Rightarrow> imu \<Rightarrow> (error + unit) \<times> imu" where
  "run_ticks [] s = (Inr (), s)"
| "run_ticks ((current_time, now) # ts) s =
     (case update_plot current_time now s of
        (Inl e, s') \<Rightarrow> (Inl e, s')
      | (Inr u, s') \<Rightarrow> run_ticks ts s')"

lemma update_plot_without_port:
  assumes "\<not> serial_connected s" and "serial_port s = None"
  shows "update_plot current_time now s = (Inr (), update_demo s)"
  using assms
  by (simp add: update_plot_def draw_realtime_cube_def draw_ui_panels_def buffer_size_def
      update_demo_def Let_def)

lemma update_demo_keeps_port:
  "serial_connected (update_demo s) = serial_connected s \<and>
   serial_port (update_demo s) = serial_port s \<and>
   demo_mode (update_demo s) = demo_mode s"
  by (simp add: update_demo_def Let_def)

lemma run_ticks_without_port:
  assumes "\<not> serial_connected s" and "serial_port s = None"
  shows "run_ticks ts s = (Inr (), (update_demo ^^ length ts) s)"
  using assms
proof (induction ts arbitrary: s)
  case Nil
  show ?case by simp
next
  case (Cons t ts)
  obtain c n where t: "t = (c, n)" by (cases t)
  from Cons.prems have step: "update_plot c n s = (Inr (), update_demo s)"
    by (rule update_plot_without_port)
  from Cons.prems have "\<not> serial_connected (update_demo s)" "serial_port (update_demo s) = None"
    by (simp_all add: update_demo_keeps_port)
  then have "run_ticks ts (update_demo s) = (Inr (), (update_demo ^^ length ts) (update_demo s))"
    by (rule Cons.IH)
  with t step show ?case by (simp add: funpow_swap1)
qed

text \<open>
  Claim C8: when \<^verbatim>\<open>serial.Serial(...)\<close> raises during construction, the constructor
  returns an object in demo mode, not connected and without a port object; from then on
  every tick is a step of \<^verbatim>\<open>update_demo\<close> that raises nothing and calls no port
  operation (there is no port to call).
\<close>

theorem failed_open_runs_simulated:
  "demo_mode (RealTimeIMU True (Inl e)) \<and>
   \<not> serial_connected (RealTimeIMU True (Inl e)) \<and>
   serial_port (RealTimeIMU True (Inl e)) = None \<and>
   run_ticks ts (RealTimeIMU True (Inl e))
     = (Inr (), (update_demo ^^ length ts) (RealTimeIMU True (Inl e)))"
proof -
  have a: "\<not> serial_connected (RealTimeIMU True (Inl e))"
    and b: "serial_port (RealTimeIMU True (Inl e)) = None"
    and c: "demo_mode (RealTimeIMU True (Inl e))"
    by (simp_all add: RealTimeIMU_def init_serial_def fresh_imu_def)
  from a b have "run_ticks ts (RealTimeIMU True (Inl e))
     = (Inr (), (update_demo ^^ length ts) (RealTimeIMU True (Inl e)))"
    by (rule run_ticks_without_port)
  with a b c show ?thesis by simp
qed

text \<open>The first tick after a failed open: the demo signal at \<open>demo_time = 0.02\<close>.\<close>

theorem failed_open_runs_simulated_witness:
  "rotX (snd (run_ticks [(1000, 1000)] (RealTimeIMU True (Inl SerialException)))) = 45 * sin 0.02 \<and>
   serial_port (snd (run_ticks [(1000, 1000)] (RealTimeIMU True (Inl SerialException)))) = None"
  using failed_open_runs_simulated [of SerialException "[(1000, 1000)]"]
  by (simp add: update_demo_def RealTimeIMU_def init_serial_def fresh_imu_def Let_def)

section \<open>The manual buffer clear\<close>

text \<open>
  Claim C9 says that the manual flush (key \<^verbatim>\<open>b\<close>) reaches the port only in live mode
  and has no effect in simulated mode. The guard of the source is
  \<^verbatim>\<open>if self.serial_port:\<close>, not the mode: on a connected object that the user has
  switched to demo mode the key still flushes the port.
\<close>

theorem manual_flush_in_simulated_mode_counterexample:
  "demo_mode ((connected_to (port_holding ''1,2,3'' []))\<lparr>demo_mode := True\<rparr>) \<and>
   on_key_press (Some ''b'') ((connected_to (port_holding ''1,2,3'' []))\<lparr>demo_mode := True\<rparr>)
     = (connected_to (port_holding [] []))\<lparr>demo_mode := True\<rparr> \<and>
   on_key_press (Some ''b'') ((connected_to (port_holding ''1,2,3'' []))\<lparr>demo_mode := True\<rparr>)
     \<noteq> (connected_to (port_holding ''1,2,3'' []))\<lparr>demo_mode := True\<rparr>"
  by (simp add: on_key_press_def lower_def clear_serial_buffer_def connected_to_def
      port_holding_def fresh_imu_def reset_input_buffer_def link_up_def discard_loop.simps
      in_waiting_def readline_def)

text \<open>
  Claim C9, as the code has it: the manual flush calls \<^verbatim>\<open>clear_serial_buffer\<close> exactly
  when the object has a port, whatever the mode; without a port (after a failed open) it
  changes nothing.
\<close>

theorem manual_flush_needs_port:
  "(serial_port s = None \<longrightarrow> on_key_press (Some ''b'') s = s) \<and>
   (serial_port s \<noteq> None \<longrightarrow> on_key_press (Some ''b'') s = snd (clear_serial_buffer s))"
  by (simp add: on_key_press_def lower_def)

theorem manual_flush_needs_port_witness:
  "on_key_press (Some ''b'') (RealTimeIMU True (Inl SerialException))
     = RealTimeIMU True (Inl SerialException) \<and>
   on_key_press (Some ''b'') (connected_to (port_holding ''1,2,3'' []))
     = connected_to (port_holding [] [])"
  using manual_flush_needs_port [of "RealTimeIMU True (Inl SerialException)"]
    manual_flush_needs_port [of "connected_to (port_holding ''1,2,3'' [])"]
  by (simp add: RealTimeIMU_def init_serial_def clear_serial_buffer_def connected_to_def
      port_holding_def fresh_imu_def reset_input_buffer_def link_up_def discard_loop.simps
      in_waiting_def readline_def)

section \<open>What each method may change\<close>

text \<open>The definitions unfolded to run the program on a concrete object.\<close>

lemmas run_defs = update_plot_def draw_realtime_cube_def draw_ui_panels_def buffer_size_def
  read_latest_serial_data_def periodic_clear_def process_latest_def clear_serial_buffer_def
  connected_to_def port_holding_def fresh_imu_def wire_def
  reset_input_buffer_def link_up_def in_waiting_def readline_def
  decode_utf8_def strip_def isspace_def float_of_str_def float_strip_def float_space_def
  isdigit_def exponent_def scale10_def
  digits_value_def freshness_def data_age_def Let_def

text \<open>
  \<^verbatim>\<open>clear_serial_buffer\<close> changes the port only; the periodic check changes the port and
  its timestamp, and the timestamp only to the current time of a check that was due.
\<close>

lemma clear_serial_buffer_frame:
  assumes "clear_serial_buffer s = (printed, s')"
  shows "\<exists>q. s' = s\<lparr>serial_port := q\<rparr>"
proof (cases "serial_port s")
  case None
  with assms have "s' = s\<lparr>serial_port := None\<rparr>"
    by (auto simp: clear_serial_buffer_def)
  then show ?thesis ..
next
  case (Some p)
  with assms show ?thesis
    by (auto simp: clear_serial_buffer_def Let_def split: prod.splits sum.splits)
qed

lemma periodic_clear_frame:
  assumes "periodic_clear t s = (r, s')"
  shows "\<exists>q l. s' = s\<lparr>serial_port := q, last_buffer_clear := l\<rparr>
     \<and> (l = last_buffer_clear s \<or> l = t \<and> buffer_clear_interval s < t - last_buffer_clear s)"
proof (cases "buffer_clear_interval s < t - last_buffer_clear s")
  case False
  with assms have "s' = s\<lparr>serial_port := serial_port s, last_buffer_clear := last_buffer_clear s\<rparr>"
    by (auto simp: periodic_clear_def)
  then show ?thesis by blast
next
  case True
  show ?thesis
  proof (cases "serial_port s")
    case None
    with True assms have "s' = s\<lparr>serial_port := serial_port s, last_buffer_clear := last_buffer_clear s\<rparr>"
      by (auto simp: periodic_clear_def)
    then show ?thesis by blast
  next
    case (Some p)
    obtain x p1 where iw: "in_waiting p = (x, p1)" by (cases "in_waiting p")
    show ?thesis
    proof (cases x)
      case (Inl e)
      with True Some iw assms have "s' = s\<lparr>serial_port := Some p1, last_buffer_clear := last_buffer_clear s\<rparr>"
        by (auto simp: periodic_clear_def)
      then show ?thesis by blast
    next
      case (Inr n)
      note xn = this
      show ?thesis
      proof (cases "max_buffer_size s < n")
        case False
        with True Some iw xn assms have "s' = s\<lparr>serial_port := Some p1, last_buffer_clear := t\<rparr>"
          by (auto simp: periodic_clear_def)
        with True show ?thesis by blast
      next
        case big: True
        obtain y p2 where iw2: "in_waiting p1 = (y, p2)" by (cases "in_waiting p1")
        show ?thesis
        proof (cases y)
          case (Inl e)
          with True Some iw xn big iw2 assms
          have "s' = s\<lparr>serial_port := Some p2, last_buffer_clear := last_buffer_clear s\<rparr>"
            by (auto simp: periodic_clear_def)
          then show ?thesis by blast
        next
          case (Inr m)
          obtain pr s1 where c: "clear_serial_buffer (s\<lparr>serial_port := Some p2\<rparr>) = (pr, s1)"
            by (cases "clear_serial_buffer (s\<lparr>serial_port := Some p2\<rparr>)")
          then obtain q where q: "s1 = s\<lparr>serial_port := Some p2\<rparr>\<lparr>serial_port := q\<rparr>"
            using clear_serial_buffer_frame by blast
          from True Some iw xn big iw2 Inr c assms
          have "s' = s1\<lparr>last_buffer_clear := t\<rparr>"
            by (auto simp: periodic_clear_def)
          with q have "s' = s\<lparr>serial_port := q, last_buffer_clear := t\<rparr>" by simp
          with True show ?thesis by blast
        qed
      qed
    qed
  qed
qed

text \<open>A completed check writes the timestamp.\<close>

lemma periodic_clear_done:
  assumes "periodic_clear t s = (Inr u, s')" and "buffer_clear_interval s < t - last_buffer_clear s"
  shows "last_buffer_clear s' = t"
proof -
  from assms(2) obtain p where p: "serial_port s = Some p"
    using assms(1) by (cases "serial_port s") (auto simp: periodic_clear_def)
  obtain x p1 where iw: "in_waiting p = (x, p1)" by (cases "in_waiting p")
  with assms p obtain n where xn: "x = Inr n"
    by (cases x) (auto simp: periodic_clear_def)
  show ?thesis
  proof (cases "max_buffer_size s < n")
    case False
    with assms p iw xn show ?thesis by (auto simp: periodic_clear_def)
  next
    case True
    obtain y p2 where iw2: "in_waiting p1 = (y, p2)" by (cases "in_waiting p1")
    with assms p iw xn True obtain m where ym: "y = Inr m"
      by (cases y) (auto simp: periodic_clear_def)
    obtain pr s1 where c: "clear_serial_buffer (s\<lparr>serial_port := Some p2\<rparr>) = (pr, s1)"
      by (cases "clear_serial_buffer (s\<lparr>serial_port := Some p2\<rparr>)")
    with assms p iw xn True iw2 ym show ?thesis by (auto simp: periodic_clear_def)
  qed
qed

section \<open>The periodic check is throttled\<close>

text \<open>
  Claim C6 says that of two periodic checks less than \<open>buffer_clear_interval\<close> apart the
  second is a no-op, whatever is pending, and that \<open>last_buffer_clear\<close> never decreases.
  The second call is not always a no-op: the check is throttled against the last check
  that ran, not against the last call. After a check at 1000.00 the call at 1000.04 is
  skipped and the call at 1000.06, 0.02 s later, runs the check and flushes the 120
  pending bytes.
\<close>

theorem second_check_not_skipped_counterexample:
  "(1000.06::real) - 1000.04 < buffer_clear_interval
      ((connected_to (port_holding (wire (replicate 20 ''1,2,3'')) []))\<lparr>last_buffer_clear := 1000\<rparr>) \<and>
   periodic_clear 1000.04
      ((connected_to (port_holding (wire (replicate 20 ''1,2,3'')) []))\<lparr>last_buffer_clear := 1000\<rparr>)
     = (Inr (), (connected_to (port_holding (wire (replicate 20 ''1,2,3'')) []))\<lparr>last_buffer_clear := 1000\<rparr>) \<and>
   periodic_clear 1000.06
      ((connected_to (port_holding (wire (replicate 20 ''1,2,3'')) []))\<lparr>last_buffer_clear := 1000\<rparr>)
     = (Inr (), (connected_to (port_holding [] []))\<lparr>last_buffer_clear := 1000.06\<rparr>) \<and>
   periodic_clear 1000.06
      ((connected_to (port_holding (wire (replicate 20 ''1,2,3'')) []))\<lparr>last_buffer_clear := 1000\<rparr>)
     \<noteq> (Inr (), (connected_to (port_holding (wire (replicate 20 ''1,2,3'')) []))\<lparr>last_buffer_clear := 1000\<rparr>)"
  by (simp add: run_defs discard_loop.simps eval_nat_numeral)

text \<open>
  Claim C6, as the code has it: when a call has run the check (it was due and raised
  nothing), a second call less than \<open>buffer_clear_interval\<close> later is a no-op, whatever
  the port holds and whatever else has changed in between, so the check runs at most
  once over the two calls; and with a non-negative interval (it is 0.05 and never
  assigned again) \<open>last_buffer_clear\<close> never decreases.
\<close>

theorem periodic_clear_throttled:
  assumes "0 \<le> buffer_clear_interval s" and "periodic_clear t1 s = (r, s1)"
  shows "last_buffer_clear s \<le> last_buffer_clear s1 \<and>
         (r = Inr () \<and> buffer_clear_interval s < t1 - last_buffer_clear s \<and>
          t2 - t1 < buffer_clear_interval s \<and>
          last_buffer_clear s2 = last_buffer_clear s1 \<and>
          buffer_clear_interval s2 = buffer_clear_interval s
          \<longrightarrow> periodic_clear t2 s2 = (Inr (), s2))"
proof -
  from assms(2) obtain q' l where f: "s1 = s\<lparr>serial_port := q', last_buffer_clear := l\<rparr>"
    and l: "l = last_buffer_clear s \<or> l = t1 \<and> buffer_clear_interval s < t1 - last_buffer_clear s"
    using periodic_clear_frame by blast
  from f l assms(1) have mono: "last_buffer_clear s \<le> last_buffer_clear s1" by auto
  have noop: "periodic_clear t2 s2 = (Inr (), s2)"
    if "r = Inr ()" "buffer_clear_interval s < t1 - last_buffer_clear s"
       "t2 - t1 < buffer_clear_interval s" "last_buffer_clear s2 = last_buffer_clear s1"
       "buffer_clear_interval s2 = buffer_clear_interval s"
  proof -
    from assms(2) that(1,2) have "last_buffer_clear s1 = t1" using periodic_clear_done by blast
    with that(3,4,5) show ?thesis by (simp add: periodic_clear_def)
  qed
  from mono noop show ?thesis by blast
qed

text \<open>
  A check at 1000.00 on an empty buffer; 25 ms later 120 bytes are pending, and the
  second call leaves them alone.
\<close>

theorem periodic_clear_throttled_witness:
  "periodic_clear 1000 (connected_to (port_holding [] []))
     = (Inr (), (connected_to (port_holding [] []))\<lparr>last_buffer_clear := 1000\<rparr>) \<and>
   last_buffer_clear (connected_to (port_holding [] []))
     \<le> last_buffer_clear ((connected_to (port_holding [] []))\<lparr>last_buffer_clear := 1000\<rparr>) \<and>
   periodic_clear 1000.025
      ((connected_to (port_holding (wire (replicate 20 ''1,2,3'')) []))\<lparr>last_buffer_clear := 1000\<rparr>)
     = (Inr (), (connected_to (port_holding (wire (replicate 20 ''1,2,3'')) []))\<lparr>last_buffer_clear := 1000\<rparr>)"
proof -
  have i: "0 \<le> buffer_clear_interval (connected_to (port_holding [] []))"
    by (simp add: connected_to_def fresh_imu_def)
  have run: "periodic_clear 1000 (connected_to (port_holding [] []))
     = (Inr (), (connected_to (port_holding [] []))\<lparr>last_buffer_clear := 1000\<rparr>)"
    by (simp add: run_defs)
  have due: "buffer_clear_interval (connected_to (port_holding [] []))
      < 1000 - last_buffer_clear (connected_to (port_holding [] []))"
    and soon: "(1000.025::real) - 1000 < buffer_clear_interval (connected_to (port_holding [] []))"
    and same: "last_buffer_clear ((connected_to (port_holding (wire (replicate 20 ''1,2,3'')) []))\<lparr>last_buffer_clear := 1000\<rparr>)
      = last_buffer_clear ((connected_to (port_holding [] []))\<lparr>last_buffer_clear := 1000\<rparr>)"
      "buffer_clear_interval ((connected_to (port_holding (wire (replicate 20 ''1,2,3'')) []))\<lparr>last_buffer_clear := 1000\<rparr>)
      = buffer_clear_interval (connected_to (port_holding [] []))"
    by (simp_all add: connected_to_def fresh_imu_def)
  from periodic_clear_throttled [OF i run, of "1000.025"
      "(connected_to (port_holding (wire (replicate 20 ''1,2,3'')) []))\<lparr>last_buffer_clear := 1000\<rparr>"]
    run due soon same
  show ?thesis by simp
qed

section \<open>A tick in live mode\<close>

subsection \<open>Which bytes the port operations move\<close>







lemma strip_blank:
  assumes "list_all isspace l"
  shows "strip l = []"
  using assms by (auto simp: strip_def list_all_iff dest: set_dropWhileD)

















section \<open>A rejected packet\<close>

text \<open>
  What a rejected packet leaves alone: the acceptance timestamp, the packet counter and
  the yaw. A line with fewer than three fields, or with a first field that does not
  convert, changes nothing at all.
\<close>

lemma process_latest_rejected:
  assumes "process_latest t ld s = (False, s')"
  shows "last_data_time s' = last_data_time s \<and> data_count s' = data_count s \<and>
         rotZ s' = rotZ s"
  using assms
  by (auto simp: process_latest_def Let_def split: option.splits sum.splits if_splits)

lemma process_latest_too_few_fields:
  assumes "length (split_at (CHR '','') line) < 3"
  shows "process_latest t (Some line) s = (False, s)"
  using assms by (simp add: process_latest_def Let_def)

lemma process_latest_first_field_bad:
  assumes "float_of_str (split_at (CHR '','') line ! 0) = Inl e"
  shows "process_latest t (Some line) s = (False, s)"
  using assms by (simp add: process_latest_def Let_def)

text \<open>
  Claim C2 says that a malformed packet leaves the orientation and \<open>last_data_time\<close>
  unchanged. The source assigns \<^verbatim>\<open>self.rotY\<close>, \<^verbatim>\<open>self.rotX\<close>, \<^verbatim>\<open>self.rotZ\<close> one by
  one, each right after its conversion: the line \<^verbatim>\<open>1.5,x,3.0\<close> fails at the second
  field, the method prints the parse error and returns \<^verbatim>\<open>False\<close>, and the pitch is
  already 1.5.
\<close>

theorem malformed_packet_changes_pitch:
  "rotY (connected_to (port_holding (wire [''1.5,x,3.0'']) [])) = 0 \<and>
   read_latest_serial_data 1000 (connected_to (port_holding (wire [''1.5,x,3.0'']) []))
     = (False, (connected_to (port_holding [] []))\<lparr>last_buffer_clear := 1000, rotY := 1.5\<rparr>)"
  by (simp add: run_defs latest_loop.simps)

text \<open>The pitch after the rejected packet.\<close>

theorem malformed_packet_changes_pitch_witness:
  "rotY (snd (read_latest_serial_data 1000 (connected_to (port_holding (wire [''1.5,x,3.0'']) []))))
     = 1.5"
  using malformed_packet_changes_pitch by simp

section \<open>Lines on a healthy port\<close>

text \<open>
  On a healthy port that holds complete lines, \<^verbatim>\<open>readline\<close> takes the first line with
  its line feed, and the drain loop of the flush takes lines until none is left or its
  counter has passed 50.
\<close>

lemma take_line_wire:
  "CHR 0x0A \<notin> set l \<Longrightarrow> take_line (l @ CHR 0x0A # rest) = (l @ [CHR 0x0A], rest)"
  by (induction l) auto

lemma healthy_in_waiting: "faults p = None \<Longrightarrow> in_waiting p = (Inr (length (rx p)), p)"
  by (simp add: in_waiting_def link_up_def)

lemma healthy_readline:
  assumes "faults p = None" and "rx p = l @ CHR 0x0A # rest" and "CHR 0x0A \<notin> set l"
  shows "readline p = (Inr (l @ [CHR 0x0A]), p\<lparr>rx := rest\<rparr>)"
  using assms by (simp add: readline_def link_up_def take_line_wire)

lemma wire_Cons: "wire (l # ls) = l @ CHR 0x0A # wire ls"
  by (simp add: wire_def)

lemma wire_Nil: "wire [] = []"
  by (simp add: wire_def)

lemma discard_loop_wire:
  assumes "faults p = None" and "rx p = wire ls" and "\<forall>l\<in>set ls. CHR 0x0A \<notin> set l"
    and "c \<le> 50"
  shows "discard_loop c p =
           (Inr (c + min (length ls) (51 - c)), p\<lparr>rx := wire (drop (51 - c) ls)\<rparr>)"
  using assms
proof (induction ls arbitrary: c p)
  case Nil
  then show ?case
    by (simp add: discard_loop.simps [of c p] healthy_in_waiting wire_Nil)
next
  case (Cons l ls)
  let ?p2 = "p\<lparr>rx := wire ls\<rparr>"
  from Cons.prems have iw: "in_waiting p = (Inr (length (rx p)), p)" and pos: "0 < length (rx p)"
    by (simp_all add: healthy_in_waiting wire_Cons)
  from Cons.prems have rl: "readline p = (Inr (l @ [CHR 0x0A]), ?p2)"
    by (intro healthy_readline) (simp_all add: wire_Cons)
  show ?case
  proof (cases "c = 50")
    case True
    with iw pos rl show ?thesis by (simp add: discard_loop.simps [of 50 p])
  next
    case False
    with Cons.prems have c: "c + 1 \<le> 50" by simp
    have "discard_loop (c + 1) ?p2 =
           (Inr (c + 1 + min (length ls) (51 - (c + 1))), ?p2\<lparr>rx := wire (drop (51 - (c + 1)) ls)\<rparr>)"
      using Cons.prems c by (intro Cons.IH) simp_all
    moreover from c have "51 - c = Suc (51 - (c + 1))" by simp
    ultimately show ?thesis using iw pos rl c
      by (simp add: discard_loop.simps [of c p])
  qed
qed



section \<open>The safety limit of the flush\<close>

text \<open>
  Claim C3 says that with the safety limit of 50 one flush discards at most 50 lines of
  a backlog (of 1000 lines, say) and ends after at most 50 iterations. The loop counts a
  line first and leaves when the count is greater than 50
  (\<^verbatim>\<open>if discarded_count > 50: break\<close>), so it stops at 51: with 1000 lines arriving
  after the reset, the flush reads 51 of them and leaves 949.
\<close>

theorem flush_discards_51_of_1000:
  "clear_serial_buffer (connected_to (port_holding [] (wire (replicate 1000 ''1,2,3''))))
     = (Discarded 51, connected_to (port_holding (wire (replicate 949 ''1,2,3'')) []))"
proof -
  let ?p2 = "\<lparr>rx = wire (replicate 1000 ''1,2,3''), inflight = [], timeout = 0.001, faults = None\<rparr>"
  have "discard_loop 0 ?p2 =
          (Inr (0 + min (length (replicate 1000 ''1,2,3'')) (51 - 0)),
           ?p2\<lparr>rx := wire (drop (51 - 0) (replicate 1000 ''1,2,3''))\<rparr>)"
    by (rule discard_loop_wire) simp_all
  then have "discard_loop 0 ?p2 = (Inr 51, ?p2\<lparr>rx := wire (replicate 949 ''1,2,3'')\<rparr>)"
    by simp
  then show ?thesis
    by (simp add: clear_serial_buffer_def connected_to_def port_holding_def fresh_imu_def
        reset_input_buffer_def link_up_def)
qed

text \<open>The count the flush prints.\<close>

theorem flush_discards_51_of_1000_witness:
  "fst (clear_serial_buffer (connected_to (port_holding [] (wire (replicate 1000 ''1,2,3'')))))
     = Discarded 51"
  using flush_discards_51_of_1000 by simp

text \<open>The loop always ends, and it never discards more than 51 lines.\<close>

lemma discard_loop_at_most:
  "discard_loop c p = (Inr n, p') \<Longrightarrow> n \<le> max (c + 1) 51"
proof (induction c p rule: discard_loop.induct)
  case (1 c p)
  obtain x p1 where iw: "in_waiting p = (x, p1)" by (cases "in_waiting p")
  show ?case
  proof (cases x)
    case (Inl e)
    with iw "1.prems" show ?thesis by (simp add: discard_loop.simps [of c p])
  next
    case (Inr k)
    note xk = this
    show ?thesis
    proof (cases "0 < k")
      case False
      with iw xk "1.prems" show ?thesis by (simp add: discard_loop.simps [of c p])
    next
      case True
      obtain y p2 where rl: "readline p1 = (y, p2)" by (cases "readline p1")
      show ?thesis
      proof (cases y)
        case (Inl e)
        with iw xk True rl "1.prems" show ?thesis by (simp add: discard_loop.simps [of c p])
      next
        case (Inr line)
        show ?thesis
        proof (cases "50 < c + 1")
          case big: True
          with iw xk True rl Inr "1.prems" show ?thesis
            by (auto simp: discard_loop.simps [of c p])
        next
          case False
          with iw xk True rl Inr "1.prems" have "discard_loop (c + 1) p2 = (Inr n, p')"
            by (simp add: discard_loop.simps [of c p])
          with "1.IH" [OF iw [symmetric] xk True rl [symmetric] Inr False]
          have "n \<le> max (c + 1 + 1) 51" by simp
          with False show ?thesis by simp
        qed
      qed
    qed
  qed
qed

section \<open>The drain loop keeps the newest line\<close>

text \<open>
  \<^verbatim>\<open>strip()\<close> removes the line feed that \<^verbatim>\<open>readline\<close> leaves at the end of a line,
  and a decodable line stays decodable with it.
\<close>

lemma isspace_newline: "isspace (CHR 0x0A)"
  by (simp add: isspace_def)

lemma strip_newline: "strip (l @ [CHR 0x0A]) = strip l"
proof (cases "list_all isspace l")
  case True
  then have "list_all isspace (l @ [CHR 0x0A])" by (simp add: isspace_newline)
  with True show ?thesis by (simp add: strip_blank)
next
  case False
  then obtain x where "x \<in> set l" and "\<not> isspace x" by (auto simp: list_all_iff)
  then have "dropWhile isspace (l @ [CHR 0x0A]) = dropWhile isspace l @ [CHR 0x0A]"
    by (rule dropWhile_append1)
  then show ?thesis by (simp add: strip_def isspace_newline)
qed

lemma decode_newline: "decode_utf8 l = Inr l \<Longrightarrow> decode_utf8 (l @ [CHR 0x0A]) = Inr (l @ [CHR 0x0A])"
  by (simp add: decode_utf8_def split: if_splits)

text \<open>
  What the drain loop holds after the non-blank lines \<open>ne\<close>, starting from the
  candidate \<open>ld\<close> and the count \<open>c\<close>.
\<close>

definition drained :: "string option \<Rightarrow> nat \<Rightarrow> string list \<Rightarrow> string option \<times> nat" where
  "drained ld c ne =
     (if ne = [] then (ld, c)
      else (Some (strip (last ne)), c + length ne - (if ld = None then 1 else 0)))"

lemma drained_Cons:
  "drained ld c (l # ne) = drained (Some (strip l)) (if ld \<noteq> None then c + 1 else c) ne"
  by (simp add: drained_def)

lemma latest_loop_wire:
  assumes "faults p = None" and "rx p = wire ls"
    and "\<forall>l\<in>set ls. CHR 0x0A \<notin> set l \<and> decode_utf8 l = Inr l"
  shows "latest_loop ld c p =
           (Inr (drained ld c (filter (\<lambda>l. strip l \<noteq> []) ls)), p\<lparr>rx := []\<rparr>)"
  using assms
proof (induction ls arbitrary: ld c p)
  case Nil
  then show ?case
    by (simp add: latest_loop.simps [of ld c p] healthy_in_waiting wire_Nil drained_def)
next
  case (Cons l ls)
  let ?p2 = "p\<lparr>rx := wire ls\<rparr>"
  from Cons.prems have iw: "in_waiting p = (Inr (length (rx p)), p)" and pos: "0 < length (rx p)"
    by (simp_all add: healthy_in_waiting wire_Cons)
  from Cons.prems have rl: "readline p = (Inr (l @ [CHR 0x0A]), ?p2)"
    by (intro healthy_readline) (simp_all add: wire_Cons)
  from Cons.prems have dec: "decode_utf8 (l @ [CHR 0x0A]) = Inr (l @ [CHR 0x0A])"
    by (simp add: decode_newline)
  have IH: "latest_loop ld' c' ?p2 =
           (Inr (drained ld' c' (filter (\<lambda>l. strip l \<noteq> []) ls)), p\<lparr>rx := []\<rparr>)" for ld' c'
    using Cons.IH [of ?p2 ld' c'] Cons.prems by simp
  show ?case
  proof (cases "strip l = []")
    case True
    with iw pos rl dec IH [of ld c] show ?thesis
      by (simp add: latest_loop.simps [of ld c p] strip_newline)
  next
    case False
    with iw pos rl dec IH [of "Some (strip l)" "if ld \<noteq> None then c + 1 else c"] show ?thesis
      by (simp add: latest_loop.simps [of ld c p] strip_newline drained_Cons)
  qed
qed

text \<open>
  Claim C1: when the drain loop of \<^verbatim>\<open>read_latest_serial_data\<close> starts on a healthy
  port that holds complete, decodable lines of which N (at least one) are not blank, it
  returns the text of the last non-blank line as the candidate and N - 1 as the number
  of discarded packets, and it leaves the buffer empty. The text of a line is what
  \<^verbatim>\<open>strip()\<close> leaves of it; blank lines (empty after decoding and stripping) add
  nothing to the candidate or to the count.
\<close>

theorem latest_loop_keeps_last_line:
  assumes "faults p = None" and "rx p = wire ls"
    and "\<forall>l\<in>set ls. CHR 0x0A \<notin> set l \<and> decode_utf8 l = Inr l"
    and "filter (\<lambda>l. strip l \<noteq> []) ls \<noteq> []"
  shows "latest_loop None 0 p =
           (Inr (Some (strip (last (filter (\<lambda>l. strip l \<noteq> []) ls))),
                 length (filter (\<lambda>l. strip l \<noteq> []) ls) - 1),
            p\<lparr>rx := []\<rparr>)"
  using latest_loop_wire [OF assms(1,2,3), of None 0] assms(4) by (simp add: drained_def)


text \<open>
  Four lines, two of them blank: the candidate is the third line without its leading
  space, and one packet was discarded.
\<close>

theorem latest_loop_keeps_last_line_witness:
  "latest_loop None 0 (port_holding (wire [''1,2,3'', [], '' 4,5,6'', ''  '']) [])
     = (Inr (Some ''4,5,6'', 1), port_holding [] [])"
proof -
  have h: "faults (port_holding (wire [''1,2,3'', [], '' 4,5,6'', ''  '']) []) = None"
    and r: "rx (port_holding (wire [''1,2,3'', [], '' 4,5,6'', ''  '']) [])
              = wire [''1,2,3'', [], '' 4,5,6'', ''  '']"
    by (simp_all add: port_holding_def)
  have a: "\<forall>l\<in>set [''1,2,3'', [], '' 4,5,6'', ''  '']. CHR 0x0A \<notin> set l \<and> decode_utf8 l = Inr l"
    by (simp add: decode_utf8_def)
  have f: "filter (\<lambda>l. strip l \<noteq> []) [''1,2,3'', [], '' 4,5,6'', ''  ''] = [''1,2,3'', '' 4,5,6'']"
    by (simp add: strip_def isspace_def)
  then have n: "filter (\<lambda>l. strip l \<noteq> []) [''1,2,3'', [], '' 4,5,6'', ''  ''] \<noteq> []" by simp
  from latest_loop_keeps_last_line [OF h r a n] f show ?thesis
    by (simp add: strip_def isspace_def port_holding_def)
qed


section \<open>Two packets in one tick\<close>

text \<open>
  Claim C5: with the lines \<^verbatim>\<open>1.0,2.0,3.0\<close> and \<^verbatim>\<open>4.0,5.0,6.0\<close> pending on a connected,
  healthy port (and a flush threshold that the 24 bytes do not exceed), one call of
  \<^verbatim>\<open>read_latest_serial_data\<close> drains both, counts one discarded packet, and accepts
  the second: the first field goes to the pitch \<open>rotY\<close>, the second to the roll
  \<open>rotX\<close>, the third to the yaw \<open>rotZ\<close>; the sample is stamped with the current time.
\<close>

theorem two_packets_latest_wins:
  assumes "serial_connected s" and "serial_port s = Some p" and "faults p = None"
    and "rx p = wire [''1.0,2.0,3.0'', ''4.0,5.0,6.0'']" and "24 \<le> max_buffer_size s"
  shows "latest_loop None 0 p = (Inr (Some ''4.0,5.0,6.0'', 1), p\<lparr>rx := []\<rparr>) \<and>
         fst (read_latest_serial_data current_time s) = True \<and>
         rotY (snd (read_latest_serial_data current_time s)) = 4 \<and>
         rotX (snd (read_latest_serial_data current_time s)) = 5 \<and>
         rotZ (snd (read_latest_serial_data current_time s)) = 6 \<and>
         last_data_time (snd (read_latest_serial_data current_time s)) = current_time"
proof -
  have lines: "\<forall>l\<in>set [''1.0,2.0,3.0'', ''4.0,5.0,6.0'']. CHR 0x0A \<notin> set l \<and> decode_utf8 l = Inr l"
    by (simp add: decode_utf8_def)
  have loop: "latest_loop None 0 p = (Inr (Some ''4.0,5.0,6.0'', 1), p\<lparr>rx := []\<rparr>)"
    using latest_loop_wire [OF assms(3,4) lines, of None 0]
    by (simp add: drained_def strip_def isspace_def)
  have len: "length (rx p) = 24" using assms(4) by (simp add: wire_def)
  obtain l where pc: "periodic_clear current_time s = (Inr (), s\<lparr>last_buffer_clear := l\<rparr>)"
  proof (cases "buffer_clear_interval s < current_time - last_buffer_clear s")
    case True
    with assms(2,3,5) len
    have "periodic_clear current_time s = (Inr (), s\<lparr>last_buffer_clear := current_time\<rparr>)"
      by (simp add: periodic_clear_def healthy_in_waiting)
    then show ?thesis by (rule that)
  next
    case False
    then have "periodic_clear current_time s = (Inr (), s\<lparr>last_buffer_clear := last_buffer_clear s\<rparr>)"
      by (simp add: periodic_clear_def)
    then show ?thesis by (rule that)
  qed
  have parse: "process_latest current_time (Some ''4.0,5.0,6.0'') s'
     = (True, s'\<lparr>rotY := 4, rotX := 5, rotZ := 6, data_count := data_count s' + 1,
                  last_data_time := current_time\<rparr>)" for s'
    by (simp add: process_latest_def float_of_str_def float_strip_def float_space_def isdigit_def
        exponent_def scale10_def digits_value_def Let_def)
  from assms(1,2) pc loop parse
  have "read_latest_serial_data current_time s
     = (True, s\<lparr>last_buffer_clear := l, serial_port := Some (p\<lparr>rx := []\<rparr>),
                 rotY := 4, rotX := 5, rotZ := 6, data_count := data_count s + 1,
                 last_data_time := current_time\<rparr>)"
    by (simp add: read_latest_serial_data_def)
  with loop show ?thesis by simp
qed

text \<open>The scenario on a freshly connected object, at time 1000.\<close>

theorem two_packets_latest_wins_witness:
  "latest_loop None 0 (port_holding (wire [''1.0,2.0,3.0'', ''4.0,5.0,6.0'']) [])
     = (Inr (Some ''4.0,5.0,6.0'', 1), port_holding [] []) \<and>
   fst (read_latest_serial_data 1000 (connected_to (port_holding (wire [''1.0,2.0,3.0'', ''4.0,5.0,6.0'']) []))) = True \<and>
   rotY (snd (read_latest_serial_data 1000 (connected_to (port_holding (wire [''1.0,2.0,3.0'', ''4.0,5.0,6.0'']) [])))) = 4 \<and>
   rotX (snd (read_latest_serial_data 1000 (connected_to (port_holding (wire [''1.0,2.0,3.0'', ''4.0,5.0,6.0'']) [])))) = 5 \<and>
   rotZ (snd (read_latest_serial_data 1000 (connected_to (port_holding (wire [''1.0,2.0,3.0'', ''4.0,5.0,6.0'']) [])))) = 6"
proof -
  have a: "serial_connected (connected_to (port_holding (wire [''1.0,2.0,3.0'', ''4.0,5.0,6.0'']) []))"
    and b: "serial_port (connected_to (port_holding (wire [''1.0,2.0,3.0'', ''4.0,5.0,6.0'']) []))
              = Some (port_holding (wire [''1.0,2.0,3.0'', ''4.0,5.0,6.0'']) [])"
    and c: "faults (port_holding (wire [''1.0,2.0,3.0'', ''4.0,5.0,6.0'']) []) = None"
    and d: "rx (port_holding (wire [''1.0,2.0,3.0'', ''4.0,5.0,6.0'']) [])
              = wire [''1.0,2.0,3.0'', ''4.0,5.0,6.0'']"
    and e: "24 \<le> max_buffer_size (connected_to (port_holding (wire [''1.0,2.0,3.0'', ''4.0,5.0,6.0'']) []))"
    by (simp_all add: connected_to_def port_holding_def fresh_imu_def)
  from two_packets_latest_wins [OF a b c d e, of 1000] show ?thesis
    by (simp add: port_holding_def)
qed

section \<open>The orientation after a tick in live mode\<close>















text \<open>
  A line that does not decode ends the drain loop in the same way; here the link is
  healthy, the tick completes, the first line is assigned and the third stays unread.
\<close>

lemma undecodable_line_keeps_candidate:
  "update_plot 1000 1000
     (connected_to (port_holding (wire [''1.0,2.0,3.0'', [CHR 0xFF], ''4.0,5.0,6.0'']) []))
   = (Inr (),
      (connected_to (port_holding (wire [''4.0,5.0,6.0'']) []))
        \<lparr>last_buffer_clear := 1000, rotY := 1, rotX := 2, rotZ := 3,
         data_count := 1, last_data_time := 1000\<rparr>)"
  by (simp add: run_defs latest_loop.simps)



end
